theory Spec2Isabelle
  imports Complex_Main "HOL-Library.Log_Nat"
begin

section \<open>Event codes of the Linux input layer\<close>

text \<open>
  The sources obtain every numeric code through \<^verbatim>\<open>B(name)\<close>, which reads the attribute
  \<^verbatim>\<open>name\<close> of \<^verbatim>\<open>evdev.ecodes\<close>. The values below are the ones of the kernel header
  \<^verbatim>\<open>input-event-codes.h\<close> and \<^verbatim>\<open>uinput.h\<close> that the library exports.
\<close>

definition EV_SYN :: int where "EV_SYN = 0"
definition EV_KEY :: int where "EV_KEY = 1"
definition EV_ABS :: int where "EV_ABS = 3"
definition EV_MSC :: int where "EV_MSC = 4"
definition EV_FF :: int where "EV_FF = 21"
definition EV_UINPUT :: int where "EV_UINPUT = 257"
definition MSC_TIMESTAMP :: int where "MSC_TIMESTAMP = 5"
definition UI_FF_UPLOAD :: int where "UI_FF_UPLOAD = 1"
definition UI_FF_ERASE :: int where "UI_FF_ERASE = 2"
definition FF_RUMBLE :: int where "FF_RUMBLE = 80"
definition KEY_POWER :: int where "KEY_POWER = 116"

section \<open>The virtual output device (\<^verbatim>\<open>hhd/controller/virtual/uinput/__init__.py\<close>)\<close>

subsection \<open>Data\<close>

text \<open>
  Modelled from the spec: the abstract \<^verbatim>\<open>Event\<close> type (\<^verbatim>\<open>hhd.controller.base\<close>) is not
  among the sources. The spec gives an axis and a timestamp event an integer value and a
  button event a boolean one; the code reads \<^verbatim>\<open>ev["type"]\<close>, \<^verbatim>\<open>ev["code"]\<close> and
  \<^verbatim>\<open>ev["value"]\<close>. A Python \<^verbatim>\<open>bool\<close> is an \<^verbatim>\<open>int\<close> (\<^verbatim>\<open>True == 1\<close>) and an integer is
  truthy when it is not zero, so a single integer field carries both.
\<close>

record event =
  ev_type :: string
  ev_code :: string
  ev_value :: int

text \<open>
  A finite double-precision number is the pair \<open>(m, e)\<close> of integers that stands for
  \<open>m * 2^e\<close>; infinities and NaN are not values of the type.
\<close>

type_synonym double = "int \<times> int"

text \<open>
  Modelled from the spec: the axis mapping entry \<^verbatim>\<open>AX\<close> (\<^verbatim>\<open>.const\<close>) is not among the
  sources. The spec gives it a target id, a floating-point scale and offset and optional
  integer bounds.
\<close>

record AX =
  ax_id :: int
  ax_scale :: double
  ax_offset :: double
  bounds :: "(int \<times> int) option"

text \<open>What reaches the kernel through the handle: \<^verbatim>\<open>dev.write(type, code, value)\<close> and \<^verbatim>\<open>dev.syn()\<close>.\<close>

datatype out_event = Write int int int | Syn

text \<open>An event read from a device (\<^verbatim>\<open>evdev.InputEvent\<close>): type, code, value.\<close>

record input_event =
  ie_type :: int
  ie_code :: int
  ie_value :: int

text \<open>The effect of a force-feedback upload request, as \<^verbatim>\<open>begin_upload\<close> returns it.\<close>

record ff_effect =
  ff_type :: int
  ff_weak_magnitude :: int
  ff_strong_magnitude :: int

text \<open>
  The calls of the force-feedback protocol on the handle: a transaction is begun with the
  request id and completed with the request id and a return value.
\<close>

datatype ff_call = BeginUpload int | EndUpload int int | BeginErase int | EndErase int int

text \<open>
  The handle (\<^verbatim>\<open>evdev.UInput\<close>) is an object of the library; the model records what the
  code calls on it: the events written, the force-feedback calls, the number of
  \<^verbatim>\<open>close()\<close> calls. \<^verbatim>\<open>begin_upload\<close> is a function of the request id.
\<close>

record uinput =
  written :: "out_event list"
  ff_calls :: "ff_call list"
  close_calls :: nat
  begin_upload :: "int \<Rightarrow> ff_effect"

text \<open>The rumble event that \<^verbatim>\<open>produce\<close> emits (a dictionary with these four keys).\<close>

record rumble_event =
  r_type :: string
  r_code :: string
  weak_magnitude :: real
  strong_magnitude :: real

text \<open>
  An attribute that \<^verbatim>\<open>__init__\<close> does not set (\<^verbatim>\<open>self.fd\<close>, \<^verbatim>\<open>self.input\<close>) is unset
  until a method assigns it; afterwards it holds \<^verbatim>\<open>None\<close> or a value.
\<close>

datatype 'a attr = Unset | PyNone | Val 'a

record uinput_device =
  btn_map :: "string \<rightharpoonup> int"
  axis_map :: "string \<rightharpoonup> AX"
  dev :: "uinput option"
  output_timestamps :: bool
  ofs :: int
  rumble :: "rumble_event option"
  fd :: "int attr"
  input :: "unit attr"

datatype error = AttributeError | IndexError | OverflowError

subsection \<open>\<^verbatim>\<open>__init__\<close>, \<^verbatim>\<open>open\<close>, \<^verbatim>\<open>close\<close>\<close>

definition init :: "(string \<rightharpoonup> int) \<Rightarrow> (string \<rightharpoonup> AX) \<Rightarrow> bool \<Rightarrow> uinput_device" where
  "init bm am ots =
     \<lparr>btn_map = bm, axis_map = am, dev = None, output_timestamps = ots, ofs = 0,
      rumble = None, fd = Unset, input = Unset\<rparr>"

text \<open>
  \<^verbatim>\<open>open\<close> creates the handle; the kernel chooses its descriptor and answers its upload
  requests, so both are parameters. (A refused creation raises inside the library.)
\<close>

definition open_uinput :: "int \<Rightarrow> (int \<Rightarrow> ff_effect) \<Rightarrow> uinput_device \<Rightarrow> uinput_device \<times> int list" where
  "open_uinput new_fd uploads s =
     (s\<lparr>dev := Some \<lparr>written = [], ff_calls = [], close_calls = 0, begin_upload = uploads\<rparr>,
        fd := Val new_fd\<rparr>,
      [new_fd])"

definition dev_close :: "uinput \<Rightarrow> uinput" where
  "dev_close d = d\<lparr>close_calls := Suc (close_calls d)\<rparr>"

definition close :: "bool \<Rightarrow> uinput_device \<Rightarrow> uinput_device \<times> bool" where
  "close exit s =
     (let s1 = (case dev s of Some d \<Rightarrow> s\<lparr>dev := Some (dev_close d)\<rparr> | None \<Rightarrow> s)
      in (s1\<lparr>input := PyNone, fd := PyNone\<rparr>, True))"

subsection \<open>Double-precision arithmetic\<close>

text \<open>
  Python's \<^verbatim>\<open>float\<close> is the binary64 format: 53 significant bits, the exponent of the
  last bit at least \<open>-1074\<close>, the magnitude below \<open>2^1024\<close>. The conversion of an
  integer, the product and the sum each return the exact result rounded to the nearest
  double, a tie going to the even significand.
\<close>

definition dval :: "double \<Rightarrow> real" where
  "dval x = (case x of (m, e) \<Rightarrow>
     if 0 \<le> e then of_int m * 2 ^ nat e else of_int m / 2 ^ nat (- e))"

text \<open>\<open>m / 2^k\<close> rounded to the nearest integer, a tie to the even one.\<close>

definition rne :: "int \<Rightarrow> nat \<Rightarrow> int" where
  "rne m k =
     (let f = m div 2 ^ k; r = m mod 2 ^ k; h = 2 ^ (k - 1)
      in if r < h then f else if h < r then f + 1 else if even f then f else f + 1)"

text \<open>
  The double nearest to the exact value \<open>m * 2^e\<close>: the \<open>k\<close> lowest bits are rounded
  away, where \<open>k\<close> is what 53 bits and the least exponent ask for. \<open>None\<close> is a result of
  magnitude \<open>2^1024\<close> or more, which is an infinity.
\<close>

definition fl :: "double \<Rightarrow> double option" where
  "fl x = (case x of (m, e) \<Rightarrow>
     let k = max (bitlen \<bar>m\<bar> - 53) (- 1074 - e);
         q = (if 0 < k then rne m (nat k) else m);
         e' = (if 0 < k then e + k else e)
     in if q = 0 then Some (0, 0)
        else if 1024 < bitlen \<bar>q\<bar> + e' then None
        else Some (q, e'))"

text \<open>The conversion of a Python \<^verbatim>\<open>int\<close>; it raises \<^verbatim>\<open>OverflowError\<close> where this is \<open>None\<close>.\<close>

definition float_of_int :: "int \<Rightarrow> double option" where
  "float_of_int v = fl (v, 0)"

definition fmul :: "double \<Rightarrow> double \<Rightarrow> double option" where
  "fmul x y = (case x of (m1, e1) \<Rightarrow> case y of (m2, e2) \<Rightarrow> fl (m1 * m2, e1 + e2))"

definition fadd :: "double \<Rightarrow> double \<Rightarrow> double option" where
  "fadd x y = (case x of (m1, e1) \<Rightarrow> case y of (m2, e2) \<Rightarrow>
     let e = min e1 e2 in fl (m1 * 2 ^ nat (e1 - e) + m2 * 2 ^ nat (e2 - e), e))"

text \<open>Python's \<^verbatim>\<open>int(x)\<close> of a finite float: the fraction is cut off, towards zero.\<close>

definition py_int :: "double \<Rightarrow> int" where
  "py_int x = (case x of (m, e) \<Rightarrow>
     if 0 \<le> e then m * 2 ^ nat e
     else if 0 \<le> m then m div 2 ^ nat (- e)
     else - ((- m) div 2 ^ nat (- e)))"

subsection \<open>\<^verbatim>\<open>consume\<close>\<close>

definition dev_write :: "int \<Rightarrow> int \<Rightarrow> int \<Rightarrow> uinput \<Rightarrow> uinput" where
  "dev_write t c v d = d\<lparr>written := written d @ [Write t c v]\<rparr>"

definition dev_syn :: "uinput \<Rightarrow> uinput" where
  "dev_syn d = d\<lparr>written := written d @ [Syn]\<rparr>"

text \<open>
  Lines 68 to 70: the value written for an axis event. The integer value is converted
  to a double, multiplied by the scale, and the offset is added. A product or sum that
  overflows is an infinity, the sum of an infinity and the finite offset is that
  infinity, and \<^verbatim>\<open>int()\<close> of an infinity raises \<^verbatim>\<open>OverflowError\<close>, as the conversion of
  too large an integer does.
\<close>

definition axis_val :: "AX \<Rightarrow> int \<Rightarrow> error + int" where
  "axis_val ax v =
     (case float_of_int v of
        None \<Rightarrow> Inl OverflowError
      | Some fv \<Rightarrow>
          (case fmul (ax_scale ax) fv of
             None \<Rightarrow> Inl OverflowError
           | Some p \<Rightarrow>
               (case fadd p (ax_offset ax) of
                  None \<Rightarrow> Inl OverflowError
                | Some x \<Rightarrow>
                    (let val = py_int x
                     in Inr (case bounds ax of
                               Some (b0, b1) \<Rightarrow> min (max val b0) b1
                             | None \<Rightarrow> val)))))"

text \<open>\<^verbatim>\<open>self.dev.write(type, code, value)\<close>.\<close>

definition self_dev_write :: "int \<Rightarrow> int \<Rightarrow> int \<Rightarrow> uinput_device \<Rightarrow> uinput_device" where
  "self_dev_write t c v s = s\<lparr>dev := map_option (dev_write t c v) (dev s)\<rparr>"

text \<open>
  The body of the \<^verbatim>\<open>for\<close> loop: the device afterwards and the exception raised, if
  any. A timestamp event has type \<^verbatim>\<open>"axis"\<close> too, and is looked up in the axis map
  first.
\<close>

definition consume_ev :: "event \<Rightarrow> uinput_device \<Rightarrow> uinput_device \<times> error option" where
  "consume_ev ev s =
     (if ev_type ev = ''axis'' then
        (case axis_map s (ev_code ev) of
           Some ax \<Rightarrow>
             (case axis_val ax (ev_value ev) of
                Inl e \<Rightarrow> (s, Some e)
              | Inr val \<Rightarrow> (self_dev_write EV_ABS (ax_id ax) val s, None))
         | None \<Rightarrow>
            if output_timestamps s \<and> ev_code ev \<in> set [''accel_ts'', ''gyro_ts''] then
              (let ts = ev_value ev div 1000;
                   s' = (if ts > ofs s + 2 ^ 30 then s\<lparr>ofs := ts\<rparr> else s);
                   ts' = ts - ofs s'
               in (self_dev_write EV_MSC MSC_TIMESTAMP ts' s', None))
            else (s, None))
      else if ev_type ev = ''button'' then
        (case btn_map s (ev_code ev) of
           Some b \<Rightarrow> (self_dev_write EV_KEY b (if ev_value ev \<noteq> 0 then 1 else 0) s, None)
         | None \<Rightarrow> (s, None))
      else (s, None))"

text \<open>The \<^verbatim>\<open>for\<close> loop of lines 63 to 91; an exception leaves it at once.\<close>

fun consume_evs :: "event list \<Rightarrow> uinput_device \<Rightarrow> uinput_device \<times> error option" where
  "consume_evs [] s = (s, None)"
| "consume_evs (ev # evs) s =
     (case consume_ev ev s of
        (s', Some e) \<Rightarrow> (s', Some e)
      | (s', None) \<Rightarrow> consume_evs evs s')"

text \<open>
  \<^verbatim>\<open>consume\<close> returns the device and the exception raised, if any; the synchronisation
  barrier of line 92 is written when the loop ends without one.
\<close>

definition consume :: "event list \<Rightarrow> uinput_device \<Rightarrow> uinput_device \<times> error option" where
  "consume events s =
     (case dev s of
        None \<Rightarrow> (s, None)
      | Some d \<Rightarrow>
          (case consume_evs events s of
             (s', Some e) \<Rightarrow> (s', Some e)
           | (s', None) \<Rightarrow> (s'\<lparr>dev := map_option dev_syn (dev s')\<rparr>, None)))"

subsection \<open>\<^verbatim>\<open>produce\<close>\<close>

definition dev_ff :: "ff_call \<Rightarrow> uinput \<Rightarrow> uinput" where
  "dev_ff c d = d\<lparr>ff_calls := ff_calls d @ [c]\<rparr>"

text \<open>
  The body of the \<^verbatim>\<open>for\<close> loop of \<^verbatim>\<open>produce\<close>, on the handle, the device and the list
  \<^verbatim>\<open>out\<close>. The event \<^verbatim>\<open>ev\<close> is an \<^verbatim>\<open>InputEvent\<close>, which has the attributes \<^verbatim>\<open>sec\<close>,
  \<^verbatim>\<open>usec\<close>, \<^verbatim>\<open>type\<close>, \<^verbatim>\<open>code\<close> and \<^verbatim>\<open>value\<close> only: \<^verbatim>\<open>ev.end_erase(erase)\<close> on line 124
  raises \<^verbatim>\<open>AttributeError\<close>, after \<^verbatim>\<open>begin_erase\<close> was called on the handle.
\<close>

type_synonym produce_state = "uinput \<times> uinput_device \<times> rumble_event list"

definition produce_ev :: "input_event \<Rightarrow> produce_state \<Rightarrow> produce_state \<times> error option" where
  "produce_ev ev st =
     (case st of (d, s, out) \<Rightarrow>
       if ie_type ev = EV_MSC \<and> ie_code ev = MSC_TIMESTAMP then ((d, s, out), None)
       else if ie_type ev = EV_UINPUT then
         (if ie_code ev = UI_FF_UPLOAD then
            (let d1 = dev_ff (BeginUpload (ie_value ev)) d;
                 effect = begin_upload d (ie_value ev);
                 s' = (if ff_type effect = FF_RUMBLE then
                         s\<lparr>rumble := Some
                             \<lparr>r_type = ''rumble'', r_code = ''main'',
                              weak_magnitude = of_int (ff_weak_magnitude effect) / 65535,
                              strong_magnitude = of_int (ff_strong_magnitude effect) / 65535\<rparr>\<rparr>
                       else s)
             in ((dev_ff (EndUpload (ie_value ev) 0) d1, s', out), None))
          else if ie_code ev = UI_FF_ERASE then
            ((dev_ff (BeginErase (ie_value ev)) d, s, out), Some AttributeError)
          else ((d, s, out), None))
       else if ie_type ev = EV_FF \<and> ie_value ev \<noteq> 0 then
         (case rumble s of
            Some r \<Rightarrow> ((d, s, out @ [r]), None)
          | None \<Rightarrow> ((d, s, out), None))
       else if ie_type ev = EV_FF \<and> ie_value ev = 0 then
         ((d, s, out @ [\<lparr>r_type = ''rumble'', r_code = ''main'',
                         weak_magnitude = 0, strong_magnitude = 0\<rparr>]), None)
       else ((d, s, out), None))"

text \<open>The \<^verbatim>\<open>for\<close> loop over one \<^verbatim>\<open>dev.read()\<close>; an exception leaves it at once.\<close>

fun produce_evs :: "input_event list \<Rightarrow> produce_state \<Rightarrow> produce_state \<times> error option" where
  "produce_evs [] st = (st, None)"
| "produce_evs (ev # evs) st =
     (case produce_ev ev st of
        (st', Some e) \<Rightarrow> (st', Some e)
      | (st', None) \<Rightarrow> produce_evs evs st')"

text \<open>
  The \<^verbatim>\<open>while can_read(self.fd)\<close> loop. What the kernel has queued is a parameter: the
  list of the batches that the successive \<^verbatim>\<open>dev.read()\<close> calls return; \<^verbatim>\<open>can_read\<close> holds
  as long as a batch is left.
\<close>

fun drain :: "input_event list list \<Rightarrow> produce_state \<Rightarrow> produce_state \<times> error option" where
  "drain [] st = (st, None)"
| "drain (b # bs) st =
     (case produce_evs b st of
        (st', Some e) \<Rightarrow> (st', Some e)
      | (st', None) \<Rightarrow> drain bs st')"

text \<open>
  \<^verbatim>\<open>produce\<close> returns the device and either the list \<^verbatim>\<open>out\<close> or the exception raised.
  The guard of line 95 is evaluated from left to right; \<^verbatim>\<open>self.fd\<close> is falsy when it
  is \<^verbatim>\<open>None\<close> or 0, and reading it before \<^verbatim>\<open>open\<close> or \<^verbatim>\<open>close\<close> set it raises.
\<close>

definition produce ::
  "int list \<Rightarrow> input_event list list \<Rightarrow> uinput_device \<Rightarrow> uinput_device \<times> (error + rumble_event list)" where
  "produce fds inbound s =
     (case fd s of
        Unset \<Rightarrow> (s, Inl AttributeError)
      | PyNone \<Rightarrow> (s, Inr [])
      | Val n \<Rightarrow>
          if n = 0 then (s, Inr [])
          else if n \<notin> set fds then (s, Inr [])
          else
            (case dev s of
               None \<Rightarrow> (s, Inr [])
             | Some d \<Rightarrow>
                 (case drain inbound (d, s, []) of
                    ((d', s', out), None) \<Rightarrow> (s'\<lparr>dev := Some d'\<rparr>, Inr out)
                  | ((d', s', out), Some e) \<Rightarrow> (s'\<lparr>dev := Some d'\<rparr>, Inl e))))"

section \<open>The power-button watchdog (\<^verbatim>\<open>hhd/plugins/powerbutton/base.py\<close>)\<close>

definition STEAM_WAIT_DELAY :: real where "STEAM_WAIT_DELAY = 1 / 2"
definition LONG_PRESS_DELAY :: real where "LONG_PRESS_DELAY = 5 / 2"

text \<open>
  Both loops talk to the outside only: the cancellation flag, the gating predicate
  \<^verbatim>\<open>is_steam_gamescope_running\<close>, device discovery, \<^verbatim>\<open>select\<close>, \<^verbatim>\<open>read_one\<close>, the clock
  and the three external actions. The model runs a loop against a finite list of
  observations, one entry per iteration, holding what each of these calls returned in
  that iteration; the result says where the loop stands when the observations end.
\<close>

datatype action = SteamShortPress | SteamLongPress | SystemctlSuspend

datatype press_type = initial_press | long_press | short_press | release_without_press | no_press

datatype loop_status = Returned | AtLoopHead | InGatingWait

text \<open>
  One round of the inner loop \<^verbatim>\<open>while not is_steam_gamescope_running(perms)\<close>: what the
  predicate returns, and what \<^verbatim>\<open>should_exit.is_set()\<close> would return in that round.
\<close>

type_synonym gate_poll = "bool \<times> bool"

datatype gate_result = SteamUp | Cancelled

text \<open>
  The gating wait of the timer variant (lines 213 and 214) reads the predicate only.
  \<open>None\<close>: the loop is still waiting when the observed rounds end.
\<close>

fun gate_wait_timer :: "gate_poll list \<Rightarrow> gate_result option" where
  "gate_wait_timer [] = None"
| "gate_wait_timer ((running, exit_set) # ps) =
     (if running then Some SteamUp else gate_wait_timer ps)"

text \<open>The gating wait of the two-device variant (lines 146 to 149) returns when the flag is set.\<close>

fun gate_wait_isa :: "gate_poll list \<Rightarrow> gate_result option" where
  "gate_wait_isa [] = None"
| "gate_wait_isa ((running, exit_set) # ps) =
     (if running then Some SteamUp
      else if exit_set then Some Cancelled
      else gate_wait_isa ps)"

text \<open>Lines 254 to 271 (and 167 to 194): the external action and the fallback when it fails.\<close>

definition dispatch :: "press_type \<Rightarrow> bool \<Rightarrow> action list" where
  "dispatch press_type action_ok =
     (case press_type of
        long_press \<Rightarrow> SteamLongPress # (if action_ok then [] else [SystemctlSuspend])
      | short_press \<Rightarrow> SteamShortPress # (if action_ok then [] else [SystemctlSuspend])
      | initial_press \<Rightarrow> []
      | release_without_press \<Rightarrow> []
      | no_press \<Rightarrow> [])"

subsection \<open>\<^verbatim>\<open>power_button_timer\<close>\<close>

text \<open>
  \<^verbatim>\<open>select\<close> on the one descriptor, followed by \<^verbatim>\<open>read_one\<close> when it is ready. A read
  that raises (the device is gone) or returns no event makes the loop leave through
  \<^verbatim>\<open>except Exception\<close>.
\<close>

datatype select_result = Timeout | Ready input_event | ReadError

record timer_obs =
  t_exit_set :: bool
  t_steam_running :: bool
  t_gate_polls :: "gate_poll list"
  t_register_ok :: bool
  t_sel :: select_result
  t_curr_time :: real
  t_action_ok :: bool

text \<open>The local variables of the loop, and the external actions it has run so far.\<close>

record timer_state =
  t_dev :: bool
  pressed_time :: "real option"
  t_actions :: "action list"

text \<open>\<^verbatim>\<open>if pressed_time\<close>: \<^verbatim>\<open>None\<close> is falsy, and so is the float 0.0.\<close>

definition truthy :: "real option \<Rightarrow> bool" where
  "truthy p = (case p of None \<Rightarrow> False | Some t \<Rightarrow> t \<noteq> 0)"

text \<open>
  Line 224: the timeout handed to \<^verbatim>\<open>select\<close>. Whether the wait then ends by a ready
  descriptor or by the timeout is an observation (\<open>t_sel\<close>).
\<close>

definition timer_delay :: "real option \<Rightarrow> real" where
  "timer_delay p = (if truthy p then LONG_PRESS_DELAY else STEAM_WAIT_DELAY)"

text \<open>Lines 228 to 252: the press type of the iteration and the new \<^verbatim>\<open>pressed_time\<close>.\<close>

definition timer_press :: "select_result \<Rightarrow> real \<Rightarrow> real option \<Rightarrow> press_type \<times> real option" where
  "timer_press r curr_time pt =
     (case r of
        Ready ev \<Rightarrow>
          if ie_type ev = EV_KEY \<and> ie_code ev = KEY_POWER then
            (if ie_value ev \<noteq> 0 then (initial_press, Some curr_time)
             else
               (case pt of
                  Some t \<Rightarrow>
                    if t \<noteq> 0 then
                      (if curr_time - t > LONG_PRESS_DELAY then (long_press, None)
                       else (short_press, None))
                    else (release_without_press, pt)
                | None \<Rightarrow> (release_without_press, pt)))
          else (no_press, pt)
      | Timeout \<Rightarrow> if truthy pt then (long_press, pt) else (no_press, pt)
      | ReadError \<Rightarrow> (no_press, pt))"

text \<open>\<^verbatim>\<open>finally: if dev: dev.close()\<close>.\<close>

definition timer_finally :: "timer_state \<Rightarrow> timer_state" where
  "timer_finally s = s\<lparr>t_dev := False\<rparr>"

fun power_button_timer :: "timer_obs list \<Rightarrow> timer_state \<Rightarrow> loop_status \<times> timer_state" where
  "power_button_timer [] s = (AtLoopHead, s)"
| "power_button_timer (ob # obs) s =
     (if t_exit_set ob then (Returned, timer_finally s)
      else
        (case (if t_steam_running ob then (s, Some SteamUp)
               else (s\<lparr>t_dev := False\<rparr>, gate_wait_timer (t_gate_polls ob))) of
           (s1, None) \<Rightarrow> (InGatingWait, s1)
         | (s1, Some g) \<Rightarrow>
             (let s2 = (if t_dev s1 then s1 else s1\<lparr>t_dev := t_register_ok ob\<rparr>)
              in if t_dev s2 then
                   (case t_sel ob of
                      ReadError \<Rightarrow> (Returned, timer_finally s2)
                    | r \<Rightarrow>
                        (case timer_press r (t_curr_time ob) (pressed_time s2) of
                           (press_type, pt') \<Rightarrow>
                             power_button_timer obs
                               (s2\<lparr>pressed_time := pt',
                                   t_actions := t_actions s2 @ dispatch press_type (t_action_ok ob)\<rparr>)))
                 else (Returned, timer_finally s2))))"

definition timer_init :: timer_state where
  "timer_init = \<lparr>t_dev = False, pressed_time = None, t_actions = []\<rparr>"

subsection \<open>\<^verbatim>\<open>power_button_isa\<close>\<close>

type_synonym triple = "int \<times> int \<times> int"

text \<open>
  Lines 175 to 188: the hold-sequence matcher on one event of the hold device. It
  returns the new cursor and whether the long press is run. Indexing an empty sequence
  raises.
\<close>

definition hold_match :: "triple list \<Rightarrow> nat \<Rightarrow> triple \<Rightarrow> error + nat \<times> bool" where
  "hold_match hold_events hold_state chk =
     (let hs1 = (if hold_state \<ge> length hold_events then 0 else hold_state)
      in if hs1 < length hold_events then
           (let hs2 = (if chk = hold_events ! hs1 then hs1 + 1 else 0)
            in if hs2 = length hold_events then Inr (0, True) else Inr (hs2, False))
         else Inl IndexError)"

datatype isa_select = NoneReady | PressReady input_event | HoldReady input_event | IsaReadError

record isa_obs =
  i_exit_set :: bool
  i_steam_running :: bool
  i_gate_polls :: "gate_poll list"
  i_press_found :: bool
  i_hold_found :: bool
  i_sel :: isa_select
  i_action_ok :: bool

record isa_state =
  press_dev :: bool
  hold_dev :: bool
  hold_state :: nat
  i_actions :: "action list"

text \<open>Lines 166 to 194, once \<^verbatim>\<open>select\<close> has returned a ready descriptor.\<close>

definition isa_handle :: "triple list \<Rightarrow> isa_select \<Rightarrow> bool \<Rightarrow> isa_state \<Rightarrow> error + isa_state" where
  "isa_handle hold_events r action_ok s =
     (case r of
        PressReady ev \<Rightarrow>
          if ie_type ev = EV_KEY \<and> ie_code ev = KEY_POWER \<and> ie_value ev \<noteq> 0 then
            Inr (s\<lparr>i_actions := i_actions s @ dispatch short_press action_ok\<rparr>)
          else Inr s
      | HoldReady ev \<Rightarrow>
          (case hold_match hold_events (hold_state s) (ie_type ev, ie_code ev, ie_value ev) of
             Inl e \<Rightarrow> Inl e
           | Inr (hs, trigger) \<Rightarrow>
               Inr (s\<lparr>hold_state := hs,
                      i_actions := i_actions s @ (if trigger then dispatch long_press action_ok else [])\<rparr>))
      | NoneReady \<Rightarrow> Inr s
      | IsaReadError \<Rightarrow> Inr s)"

fun isa_loop :: "triple list \<Rightarrow> isa_obs list \<Rightarrow> isa_state \<Rightarrow> loop_status \<times> isa_state" where
  "isa_loop hold_events [] s = (AtLoopHead, s)"
| "isa_loop hold_events (ob # obs) s =
     (if i_exit_set ob then (Returned, s)
      else
        (case (if i_steam_running ob then (s, Some SteamUp)
               else (s\<lparr>press_dev := False, hold_dev := False\<rparr>, gate_wait_isa (i_gate_polls ob))) of
           (s1, None) \<Rightarrow> (InGatingWait, s1)
         | (s1, Some Cancelled) \<Rightarrow> (Returned, s1)
         | (s1, Some SteamUp) \<Rightarrow>
             (let s2 = (if press_dev s1 \<and> hold_dev s1 then s1
                        else s1\<lparr>press_dev := i_press_found ob, hold_dev := i_hold_found ob\<rparr>)
              in if press_dev s2 \<and> hold_dev s2 then
                   (case i_sel ob of
                      IsaReadError \<Rightarrow> (Returned, s2)
                    | r \<Rightarrow>
                        (case isa_handle hold_events r (i_action_ok ob) s2 of
                           Inl e \<Rightarrow> (Returned, s2)
                         | Inr s3 \<Rightarrow> isa_loop hold_events obs s3))
                 else (Returned, s2))))"

text \<open>Lines 127 to 134: an empty (or missing) sequence makes the function return at once.\<close>

definition power_button_isa :: "triple list \<Rightarrow> isa_obs list \<Rightarrow> loop_status \<times> isa_state" where
  "power_button_isa hold_events obs =
     (let s0 = \<lparr>press_dev = False, hold_dev = False, hold_state = 0, i_actions = []\<rparr>
      in if hold_events = [] then (Returned, s0) else isa_loop hold_events obs s0)"

section \<open>Reference definitions and example inputs\<close>

subsection \<open>The axis mapping in words\<close>

text \<open>
  \<open>value * scale + offset\<close> in double precision: the value converted to a double, the
  product and the sum each rounded to the nearest double. \<open>None\<close>: the result is not
  finite.
\<close>

definition double_result :: "AX \<Rightarrow> int \<Rightarrow> double option" where
  "double_result ax v =
     Option.bind (float_of_int v) (\<lambda>fv.
       Option.bind (fmul (ax_scale ax) fv) (\<lambda>p. fadd p (ax_offset ax)))"

text \<open>
  The axis mapping as the specification words it: the scaled and shifted value is
  rounded to the nearest integer, then clamped, the low bound first.
\<close>

definition mapped_spec :: "AX \<Rightarrow> int \<Rightarrow> int option" where
  "mapped_spec ax v =
     map_option (\<lambda>x. let r = round (dval x)
                     in case bounds ax of Some (lo, hi) \<Rightarrow> min (max r lo) hi | None \<Rightarrow> r)
       (double_result ax v)"

text \<open>
  The same mapping with truncation in the place of rounding: the integer part of the
  magnitude, with the sign of the value.
\<close>

definition toward_zero :: "real \<Rightarrow> int" where
  "toward_zero x = (if 0 \<le> x then 1 else - 1) * \<lfloor>\<bar>x\<bar>\<rfloor>"

definition mapped_amended :: "AX \<Rightarrow> int \<Rightarrow> int option" where
  "mapped_amended ax v =
     map_option (\<lambda>x. let t = toward_zero (dval x)
                     in case bounds ax of Some (lo, hi) \<Rightarrow> min (max t lo) hi | None \<Rightarrow> t)
       (double_result ax v)"

text \<open>
  A device with an unbounded axis of scale 1/4, a bounded trigger axis of scale 255 and
  an unbounded axis whose scale is the double nearest to 0.7.
\<close>

definition quarter_axis :: AX where
  "quarter_axis = \<lparr>ax_id = 0, ax_scale = (1, - 2), ax_offset = (0, 0), bounds = None\<rparr>"

definition trigger_axis :: AX where
  "trigger_axis = \<lparr>ax_id = 2, ax_scale = (255, 0), ax_offset = (0, 0), bounds = Some (0, 255)\<rparr>"

definition seven_tenths_axis :: AX where
  "seven_tenths_axis =
     \<lparr>ax_id = 3, ax_scale = (3152519739159347, - 52), ax_offset = (0, 0), bounds = None\<rparr>"

definition no_effect :: "int \<Rightarrow> ff_effect" where
  "no_effect rid = \<lparr>ff_type = 0, ff_weak_magnitude = 0, ff_strong_magnitude = 0\<rparr>"

definition fresh_handle :: uinput where
  "fresh_handle = \<lparr>written = [], ff_calls = [], close_calls = 0, begin_upload = no_effect\<rparr>"

definition axis_device :: uinput_device where
  "axis_device =
     fst (open_uinput 3 no_effect
       (init Map.empty
          [''ls_x'' \<mapsto> quarter_axis, ''rt'' \<mapsto> trigger_axis, ''rs_x'' \<mapsto> seven_tenths_axis] True))"

definition axis_event :: "string \<Rightarrow> int \<Rightarrow> event" where
  "axis_event c v = \<lparr>ev_type = ''axis'', ev_code = c, ev_value = v\<rparr>"

subsection \<open>The timestamp offset in words\<close>

text \<open>
  The rolling offset and the written timestamps of a sequence of raw nanosecond values,
  from the offset \<open>off\<close>: each value is converted to microseconds; a converted value more
  than \<open>2^30\<close> past the offset becomes the offset; the offset is subtracted.
\<close>

fun spec_ts_ofs :: "int \<Rightarrow> int list \<Rightarrow> int" where
  "spec_ts_ofs off [] = off"
| "spec_ts_ofs off (v # vs) =
     spec_ts_ofs (if v div 1000 > off + 2 ^ 30 then v div 1000 else off) vs"

fun spec_ts_written :: "int \<Rightarrow> int list \<Rightarrow> int list" where
  "spec_ts_written off [] = []"
| "spec_ts_written off (v # vs) =
     (let off' = (if v div 1000 > off + 2 ^ 30 then v div 1000 else off)
      in (v div 1000 - off') # spec_ts_written off' vs)"

subsection \<open>Force-feedback events\<close>

definition upload_ev :: "int \<Rightarrow> input_event" where
  "upload_ev rid = \<lparr>ie_type = EV_UINPUT, ie_code = UI_FF_UPLOAD, ie_value = rid\<rparr>"

definition erase_ev :: "int \<Rightarrow> input_event" where
  "erase_ev rid = \<lparr>ie_type = EV_UINPUT, ie_code = UI_FF_ERASE, ie_value = rid\<rparr>"

definition play_ev :: "int \<Rightarrow> int \<Rightarrow> input_event" where
  "play_ev eid v = \<lparr>ie_type = EV_FF, ie_code = eid, ie_value = v\<rparr>"

text \<open>A kernel that answers every upload request with a rumble effect of magnitudes 32768 and 65535.\<close>

definition half_full_upload :: "int \<Rightarrow> ff_effect" where
  "half_full_upload rid =
     \<lparr>ff_type = FF_RUMBLE, ff_weak_magnitude = 32768, ff_strong_magnitude = 65535\<rparr>"

definition rumble_handle :: uinput where
  "rumble_handle = \<lparr>written = [], ff_calls = [], close_calls = 0, begin_upload = half_full_upload\<rparr>"

definition rumble_device :: uinput_device where
  "rumble_device = fst (open_uinput 3 half_full_upload (init Map.empty Map.empty False))"

subsection \<open>Observations of the watchdog loops\<close>

text \<open>
  An iteration in which the gate holds, the device is found and the power key delivers an
  event of value \<open>v\<close> at time \<open>t\<close>; one in which \<open>select\<close> times out; and one in which
  the gate is down and the cancellation flag is set during each of \<open>n\<close> rounds of the
  gating wait.
\<close>

definition power_key_obs :: "int \<Rightarrow> real \<Rightarrow> bool \<Rightarrow> timer_obs" where
  "power_key_obs v t ok =
     \<lparr>t_exit_set = False, t_steam_running = True, t_gate_polls = [], t_register_ok = True,
      t_sel = Ready \<lparr>ie_type = EV_KEY, ie_code = KEY_POWER, ie_value = v\<rparr>,
      t_curr_time = t, t_action_ok = ok\<rparr>"

definition timeout_obs :: "bool \<Rightarrow> timer_obs" where
  "timeout_obs ok =
     \<lparr>t_exit_set = False, t_steam_running = True, t_gate_polls = [], t_register_ok = True,
      t_sel = Timeout, t_curr_time = 0, t_action_ok = ok\<rparr>"

definition cancelled_wait_obs :: "nat \<Rightarrow> timer_obs" where
  "cancelled_wait_obs n =
     \<lparr>t_exit_set = False, t_steam_running = False, t_gate_polls = replicate n (False, True),
      t_register_ok = True, t_sel = Timeout, t_curr_time = 0, t_action_ok = True\<rparr>"

definition cancelled_wait_isa_obs :: "nat \<Rightarrow> isa_obs" where
  "cancelled_wait_isa_obs n =
     \<lparr>i_exit_set = False, i_steam_running = False, i_gate_polls = replicate n (False, True),
      i_press_found = True, i_hold_found = True, i_sel = NoneReady, i_action_ok = True\<rparr>"

text \<open>The timer loop with the device held and a press recorded at time \<open>t\<close>.\<close>

definition held_at :: "real \<Rightarrow> timer_state" where
  "held_at t = \<lparr>t_dev = True, pressed_time = Some t, t_actions = []\<rparr>"

text \<open>An iteration of the two-device loop in which the hold device delivers the event \<open>chk\<close>.\<close>

definition hold_obs :: "bool \<Rightarrow> triple \<Rightarrow> isa_obs" where
  "hold_obs ok chk =
     \<lparr>i_exit_set = False, i_steam_running = True, i_gate_polls = [], i_press_found = True,
      i_hold_found = True,
      i_sel = HoldReady \<lparr>ie_type = fst chk, ie_code = fst (snd chk), ie_value = snd (snd chk)\<rparr>,
      i_action_ok = ok\<rparr>"

text \<open>How often the long-press action was run.\<close>

definition long_presses :: "loop_status \<times> isa_state \<Rightarrow> nat" where
  "long_presses r = count_list (i_actions (snd r)) SteamLongPress"

section \<open>Properties of the virtual output device\<close>

lemmas ecodes =
  EV_SYN_def EV_KEY_def EV_ABS_def EV_MSC_def EV_FF_def EV_UINPUT_def MSC_TIMESTAMP_def
  UI_FF_UPLOAD_def UI_FF_ERASE_def FF_RUMBLE_def KEY_POWER_def

subsection \<open>Double-precision arithmetic\<close>

text \<open>A value that is a double already is left as it is.\<close>

lemma fl_exact:
  assumes "m \<noteq> 0" and "\<bar>m\<bar> < 2 ^ 53" and "- 1074 \<le> e" and "e \<le> 971"
  shows "fl (m, e) = Some (m, e)"
proof -
  have b: "bitlen \<bar>m\<bar> \<le> 53"
    using assms(2) by (simp add: bitlen_le_iff_power)
  then have k: "\<not> 0 < max (bitlen \<bar>m\<bar> - 53) (- 1074 - e)"
    using assms(3) by simp
  have "\<not> 1024 < bitlen \<bar>m\<bar> + e"
    using b assms(4) by simp
  then show ?thesis
    using assms(1) k by (simp add: fl_def Let_def del: max_less_iff_conj)
qed

text \<open>Truncation cuts the fraction off: the integer part of the magnitude, with the sign.\<close>

lemma py_int_toward_zero: "py_int x = toward_zero (dval x)"
proof (cases x)
  case (Pair m e)
  show ?thesis
  proof (cases "0 \<le> e")
    case True
    have dv: "dval x = of_int (m * 2 ^ nat e)"
      using True by (simp add: dval_def Pair)
    have "toward_zero (of_int k) = k" for k :: int
      by (simp add: toward_zero_def abs_if flip: of_int_minus)
    then have "toward_zero (dval x) = m * 2 ^ nat e"
      unfolding dv .
    then show ?thesis
      using True by (simp add: py_int_def Pair)
  next
    case False
    define n where "n = nat (- e)"
    have dv: "dval x = of_int m / of_int (2 ^ n)"
      using False by (simp add: dval_def Pair n_def)
    have pos: "(0::real) < of_int (2 ^ n)" by simp
    show ?thesis
    proof (cases "0 \<le> m")
      case True
      then have "0 \<le> dval x" unfolding dv by (simp del: of_int_power)
      then have "toward_zero (dval x) = \<lfloor>dval x\<rfloor>"
        by (simp add: toward_zero_def)
      also have "\<dots> = \<lfloor>of_int m / (of_int (2 ^ n) :: real)\<rfloor>"
        by (simp only: dv)
      also have "\<dots> = m div 2 ^ n" by (rule floor_divide_of_int_eq)
      finally show ?thesis
        using True False by (simp add: py_int_def Pair n_def)
    next
      case m: False
      then have neg: "dval x < 0" unfolding dv
        by (simp add: divide_less_0_iff del: of_int_power)
      have "\<bar>dval x\<bar> = - dval x"
        using neg by simp
      also have "\<dots> = of_int (- m) / of_int (2 ^ n)"
        unfolding dv by (simp del: of_int_power)
      finally have "\<bar>dval x\<bar> = of_int (- m) / of_int (2 ^ n)" .
      then have "\<lfloor>\<bar>dval x\<bar>\<rfloor> = (- m) div 2 ^ n"
        by (simp only: floor_divide_of_int_eq)
      then have "toward_zero (dval x) = - ((- m) div 2 ^ n)"
        using neg by (simp add: toward_zero_def)
      then show ?thesis
        using m False by (simp add: py_int_def Pair n_def)
    qed
  qed
qed

subsection \<open>Axis mapping\<close>

lemma axis_val_amended:
  "axis_val ax v = (case mapped_amended ax v of Some w \<Rightarrow> Inr w | None \<Rightarrow> Inl OverflowError)"
  by (simp add: axis_val_def mapped_amended_def double_result_def py_int_toward_zero Let_def
      split: option.splits)

lemma consume_evs_append:
  "consume_evs (xs @ ys) s =
     (case consume_evs xs s of (s', Some e) \<Rightarrow> (s', Some e) | (s', None) \<Rightarrow> consume_evs ys s')"
  by (induction xs arbitrary: s) (auto split: prod.splits option.splits)

lemma consume_ev_keeps:
  "consume_ev ev s = (s', r) \<Longrightarrow>
     axis_map s' = axis_map s \<and> btn_map s' = btn_map s \<and> output_timestamps s' = output_timestamps s
     \<and> (dev s' = None \<longleftrightarrow> dev s = None)"
  by (auto simp: consume_ev_def self_dev_write_def Let_def split: if_splits option.splits sum.splits)

lemma consume_evs_keeps:
  "consume_evs evs s = (s', r) \<Longrightarrow>
     axis_map s' = axis_map s \<and> btn_map s' = btn_map s \<and> output_timestamps s' = output_timestamps s
     \<and> (dev s' = None \<longleftrightarrow> dev s = None)"
proof (induction evs arbitrary: s)
  case Nil
  then show ?case by simp
next
  case (Cons ev evs)
  obtain s1 r1 where one: "consume_ev ev s = (s1, r1)" by (cases "consume_ev ev s")
  note k1 = consume_ev_keeps [OF one]
  show ?case
  proof (cases r1)
    case None
    with Cons.prems one have "consume_evs evs s1 = (s', r)" by simp
    from Cons.IH [OF this] k1 show ?thesis by simp
  next
    case (Some e)
    with Cons.prems one have "s' = s1" by simp
    with k1 show ?thesis by simp
  qed
qed

lemma dev_write_fun: "dev_write t c v = (\<lambda>d. d\<lparr>written := written d @ [Write t c v]\<rparr>)"
  by (rule ext) (simp add: dev_write_def)

lemma consume_ev_axis:
  assumes "ev_type ev = ''axis''" and "axis_map s (ev_code ev) = Some ax"
  shows "consume_ev ev s =
    (case mapped_amended ax (ev_value ev) of
       Some w \<Rightarrow> (s\<lparr>dev := map_option (\<lambda>d. d\<lparr>written := written d @ [Write EV_ABS (ax_id ax) w]\<rparr>) (dev s)\<rparr>, None)
     | None \<Rightarrow> (s, Some OverflowError))"
  using assms
  by (simp add: consume_ev_def axis_val_amended self_dev_write_def dev_write_fun split: option.splits)

lemma axis_val_examples:
  "axis_val quarter_axis 3 = Inr 0"
  "axis_val quarter_axis (- 3) = Inr 0"
  "axis_val trigger_axis 2 = Inr 255"
  "axis_val seven_tenths_axis 10 = Inr 7"
  by code_simp+

lemma axis_fields:
  "ax_id quarter_axis = 0" "ax_id trigger_axis = 2" "ax_id seven_tenths_axis = 3"
  "bounds quarter_axis = None"
  by (simp_all add: quarter_axis_def trigger_axis_def seven_tenths_axis_def)

lemma double_result_quarter: "double_result quarter_axis 3 = Some (3, - 2)"
  by code_simp

lemma mapped_amended_seven_tenths: "mapped_amended seven_tenths_axis 10 = Some 7"
  using axis_val_amended [of seven_tenths_axis 10]
  by (simp add: axis_val_examples split: option.splits)

text \<open>
  Claim C1, as amended. On an open device, for every axis event whose code is in the
  axis map, wherever it stands in the sequence (after events \<open>pre\<close> that were consumed
  without an exception, before any events \<open>post\<close>), \<open>consume\<close> writes one \<open>EV_ABS\<close>
  event with the id of the mapping entry and the value \<open>value * scale + offset\<close>,
  computed in double precision and truncated towards zero (not rounded), clamped to the
  bounds (low bound first) when the entry has bounds, changes nothing else and goes on
  with the events that follow. The written value is a function of the mapping entry
  and the input value alone. When the double-precision result is not finite,
  \<open>consume\<close> raises \<open>OverflowError\<close> at the event.
\<close>

theorem consume_axis_truncates:
  assumes "dev s = Some d" and "ev_type ev = ''axis''" and "axis_map s (ev_code ev) = Some ax"
    and "consume_evs pre s = (s1, None)"
  shows "consume (pre @ ev # post) s =
    (case mapped_amended ax (ev_value ev) of
       Some w \<Rightarrow>
         consume post
           (s1\<lparr>dev := map_option
                  (\<lambda>d. d\<lparr>written := written d @ [Write EV_ABS (ax_id ax) w]\<rparr>) (dev s1)\<rparr>)
     | None \<Rightarrow> (s1, Some OverflowError))"
proof -
  from consume_evs_keeps [OF assms(4)] assms(1,3)
  have am: "axis_map s1 (ev_code ev) = Some ax" and dv: "dev s1 \<noteq> None"
    by simp_all
  then obtain d1 where d1: "dev s1 = Some d1" by auto
  note step = consume_ev_axis [OF assms(2) am]
  show ?thesis
  proof (cases "mapped_amended ax (ev_value ev)")
    case None
    then show ?thesis
      by (simp add: consume_def assms(1) consume_evs_append assms(4) step)
  next
    case (Some w)
    then show ?thesis
      by (simp add: consume_def assms(1) consume_evs_append assms(4) step d1)
  qed
qed

theorem consume_axis_truncates_witness:
  "consume [axis_event ''ls_x'' 3, axis_event ''nope'' 1, axis_event ''rs_x'' 10, axis_event ''rt'' 2]
     axis_device =
   (axis_device\<lparr>dev := Some (fresh_handle\<lparr>written :=
       [Write EV_ABS 0 0, Write EV_ABS 3 7, Write EV_ABS 2 255, Syn]\<rparr>)\<rparr>, None)"
  using consume_axis_truncates [of axis_device fresh_handle "axis_event ''rs_x'' 10" seven_tenths_axis
      "[axis_event ''ls_x'' 3, axis_event ''nope'' 1]"
      "axis_device\<lparr>dev := Some (fresh_handle\<lparr>written := [Write EV_ABS 0 0]\<rparr>)\<rparr>"
      "[axis_event ''rt'' 2]"]
  by (simp add: axis_device_def open_uinput_def init_def fresh_handle_def axis_event_def
      consume_def consume_ev_def self_dev_write_def dev_write_def dev_syn_def
      axis_val_examples mapped_amended_seven_tenths axis_fields)

text \<open>
  The claim as stated fails: with scale 1/4 and no bounds, the value 3 is mapped to 0,
  the truncation of 3/4, where rounding gives 1.
\<close>

theorem consume_axis_rounds_counterexample:
  "consume [axis_event ''ls_x'' 3] axis_device =
     (axis_device\<lparr>dev := Some (fresh_handle\<lparr>written := [Write EV_ABS 0 0, Syn]\<rparr>)\<rparr>, None)
   \<and> mapped_spec quarter_axis 3 = Some 1"
  by (simp add: axis_device_def open_uinput_def init_def fresh_handle_def axis_event_def
      consume_def consume_ev_def self_dev_write_def dev_write_def dev_syn_def
      axis_val_examples mapped_spec_def double_result_quarter dval_def round_def axis_fields)

subsection \<open>Timestamps\<close>

lemma consume_evs_ts:
  assumes "dev s = Some d" "output_timestamps s"
    "axis_map s ''accel_ts'' = None" "axis_map s ''gyro_ts'' = None"
    and "\<forall>ev\<in>set events. ev_type ev = ''axis'' \<and> ev_code ev \<in> {''accel_ts'', ''gyro_ts''}"
  shows "consume_evs events s =
    (s\<lparr>ofs := spec_ts_ofs (ofs s) (map ev_value events),
       dev := Some (d\<lparr>written := written d @
         map (Write EV_MSC MSC_TIMESTAMP) (spec_ts_written (ofs s) (map ev_value events))\<rparr>)\<rparr>, None)"
  using assms
proof (induction events arbitrary: d s)
  case Nil
  then show ?case by simp
next
  case (Cons ev events)
  define ts where "ts = ev_value ev div 1000"
  define off where "off = (if ts > ofs s + 2 ^ 30 then ts else ofs s)"
  define d1 where "d1 = d\<lparr>written := written d @ [Write EV_MSC MSC_TIMESTAMP (ts - off)]\<rparr>"
  define s1 where "s1 = s\<lparr>ofs := off, dev := Some d1\<rparr>"
  from Cons.prems have ty: "ev_type ev = ''axis''" and
    cd: "ev_code ev = ''accel_ts'' \<or> ev_code ev = ''gyro_ts''"
    by auto
  from cd Cons.prems(3,4) have unmapped: "axis_map s (ev_code ev) = None"
    by auto
  have step: "consume_ev ev s = (s1, None)"
    using cd
    by (auto simp add: consume_ev_def ty unmapped Cons.prems(1,2) Let_def d1_def s1_def off_def
        ts_def self_dev_write_def dev_write_def)
  have ih: "consume_evs events s1 =
    (s1\<lparr>ofs := spec_ts_ofs (ofs s1) (map ev_value events),
        dev := Some (d1\<lparr>written := written d1 @
          map (Write EV_MSC MSC_TIMESTAMP) (spec_ts_written (ofs s1) (map ev_value events))\<rparr>)\<rparr>, None)"
    by (rule Cons.IH) (use Cons.prems in \<open>simp_all add: s1_def\<close>)
  have w: "written d1 = written d @ [Write EV_MSC MSC_TIMESTAMP (ts - off)]"
    and o: "ofs s1 = off"
    by (simp_all add: d1_def s1_def)
  have sw: "spec_ts_written (ofs s) (map ev_value (ev # events)) =
      (ts - off) # spec_ts_written off (map ev_value events)"
    and so: "spec_ts_ofs (ofs s) (map ev_value (ev # events)) = spec_ts_ofs off (map ev_value events)"
    by (simp_all add: ts_def off_def Let_def)
  have "consume_evs (ev # events) s = consume_evs events s1"
    by (simp add: step)
  also have "\<dots> = (s\<lparr>ofs := spec_ts_ofs (ofs s) (map ev_value (ev # events)),
       dev := Some (d\<lparr>written := written d @
         map (Write EV_MSC MSC_TIMESTAMP) (spec_ts_written (ofs s) (map ev_value (ev # events)))\<rparr>)\<rparr>, None)"
    unfolding ih w o sw so by (simp add: d1_def s1_def)
  finally show ?case .
qed

lemma spec_ts_window:
  assumes "\<forall>v\<in>set vs. off \<le> v div 1000 \<and> v div 1000 \<le> off + 2 ^ 30"
  shows "spec_ts_written off vs = map (\<lambda>v. v div 1000 - off) vs \<and> spec_ts_ofs off vs = off"
  using assms by (induction vs) auto

lemma sorted_ts: "sorted vs \<Longrightarrow> sorted (map (\<lambda>v. v div 1000 - (off::int)) vs)"
  by (induction vs) (auto intro: zdiv_mono1)

text \<open>
  Claim C4. On an open device that outputs timestamps and whose axis map does not hold
  the two timestamp codes, \<open>consume\<close> of a sequence of timestamp events writes, for each
  raw nanosecond value, the value in microseconds minus the rolling offset, and resets
  the offset to the converted value whenever that exceeds the offset by more than
  \<open>2^30\<close> (first conjunct). When the first value of the sequence resets the offset, the
  raw values do not decrease and every converted value stays within \<open>2^30\<close> of the new
  offset, the offset stays the first converted value, and the written timestamps are the
  distances from it: none is negative and they do not decrease (second conjunct).
\<close>

theorem consume_timestamps:
  assumes "dev s = Some d" and "output_timestamps s"
    and "axis_map s ''accel_ts'' = None" and "axis_map s ''gyro_ts'' = None"
    and "\<forall>ev\<in>set events. ev_type ev = ''axis'' \<and> ev_code ev \<in> {''accel_ts'', ''gyro_ts''}"
  shows "consume events s =
      (s\<lparr>ofs := spec_ts_ofs (ofs s) (map ev_value events),
         dev := Some (d\<lparr>written := written d @
          map (Write EV_MSC MSC_TIMESTAMP) (spec_ts_written (ofs s) (map ev_value events)) @ [Syn]\<rparr>)\<rparr>,
       None)
    \<and> (\<forall>v0 vs. map ev_value events = v0 # vs \<and> v0 div 1000 > ofs s + 2 ^ 30 \<and> sorted (v0 # vs)
          \<and> (\<forall>v\<in>set vs. v div 1000 \<le> v0 div 1000 + 2 ^ 30) \<longrightarrow>
        spec_ts_ofs (ofs s) (v0 # vs) = v0 div 1000
        \<and> spec_ts_written (ofs s) (v0 # vs) = map (\<lambda>v. v div 1000 - v0 div 1000) (v0 # vs)
        \<and> (\<forall>t\<in>set (spec_ts_written (ofs s) (v0 # vs)). 0 \<le> t)
        \<and> sorted (spec_ts_written (ofs s) (v0 # vs)))"
proof (intro conjI allI impI)
  show "consume events s =
      (s\<lparr>ofs := spec_ts_ofs (ofs s) (map ev_value events),
         dev := Some (d\<lparr>written := written d @
          map (Write EV_MSC MSC_TIMESTAMP) (spec_ts_written (ofs s) (map ev_value events)) @ [Syn]\<rparr>)\<rparr>,
       None)"
    by (simp add: consume_def assms(1) consume_evs_ts [OF assms] dev_syn_def)
next
  fix v0 vs
  assume a: "map ev_value events = v0 # vs \<and> v0 div 1000 > ofs s + 2 ^ 30 \<and> sorted (v0 # vs)
          \<and> (\<forall>v\<in>set vs. v div 1000 \<le> v0 div 1000 + 2 ^ 30)"
  then have ge: "\<forall>v\<in>set vs. v0 div 1000 \<le> v div 1000"
    by (auto intro: zdiv_mono1)
  with a have win: "\<forall>v\<in>set vs. v0 div 1000 \<le> v div 1000 \<and> v div 1000 \<le> v0 div 1000 + 2 ^ 30"
    by simp
  note w = spec_ts_window [OF win]
  from a w show o: "spec_ts_ofs (ofs s) (v0 # vs) = v0 div 1000"
    by simp
  from a w show wr: "spec_ts_written (ofs s) (v0 # vs) = map (\<lambda>v. v div 1000 - v0 div 1000) (v0 # vs)"
    by (simp add: Let_def)
  from ge show "\<forall>t\<in>set (spec_ts_written (ofs s) (v0 # vs)). 0 \<le> t"
    unfolding wr by auto
  from a show "sorted (spec_ts_written (ofs s) (v0 # vs))"
    unfolding wr by (intro sorted_ts) simp
qed

theorem consume_timestamps_witness:
  "consume [axis_event ''accel_ts'' 2000000000000, axis_event ''gyro_ts'' 2000000005999,
            axis_event ''accel_ts'' 2000001000000] axis_device =
     (axis_device\<lparr>ofs := 2000000000,
        dev := Some (fresh_handle\<lparr>written :=
          [Write EV_MSC MSC_TIMESTAMP 0, Write EV_MSC MSC_TIMESTAMP 5,
           Write EV_MSC MSC_TIMESTAMP 1000, Syn]\<rparr>)\<rparr>, None)
   \<and> sorted (spec_ts_written 0 [2000000000000, 2000000005999, 2000001000000])"
  using consume_timestamps [of axis_device fresh_handle
      "[axis_event ''accel_ts'' 2000000000000, axis_event ''gyro_ts'' 2000000005999,
        axis_event ''accel_ts'' 2000001000000]"]
  by (simp add: axis_device_def open_uinput_def init_def fresh_handle_def axis_event_def Let_def)

subsection \<open>A device that was never opened\<close>

text \<open>
  Claim C10. On a device without a handle (one that was never opened), \<open>consume\<close>
  returns for every event sequence, without an exception, and leaves the whole device
  as it was: no event and no synchronisation barrier is written (there is no handle to
  write to), and the timestamp offset and the stored rumble effect are unchanged.
\<close>

theorem consume_never_opened:
  assumes "dev s = None"
  shows "consume events s = (s, None)"
  using assms by (simp add: consume_def)


theorem consume_never_opened_witness:
  "consume [axis_event ''ls_x'' 3, axis_event ''accel_ts'' 2000000000000]
     (init Map.empty [''ls_x'' \<mapsto> quarter_axis] True) =
   (init Map.empty [''ls_x'' \<mapsto> quarter_axis] True, None)"
  using consume_never_opened [of "init Map.empty [''ls_x'' \<mapsto> quarter_axis] True"]
  by (simp add: init_def)

subsection \<open>Force feedback\<close>

lemma produce_evs_append:
  "produce_evs (xs @ ys) st =
     (case produce_evs xs st of (st', Some e) \<Rightarrow> (st', Some e) | (st', None) \<Rightarrow> produce_evs ys st')"
  by (induction xs arbitrary: st) (auto split: prod.splits option.splits)

lemma drain_concat: "drain bs st = produce_evs (concat bs) st"
  by (induction bs arbitrary: st) (auto simp: produce_evs_append split: prod.splits option.splits)

lemma produce_ev_upload:
  assumes "ff_type (begin_upload d rid) = FF_RUMBLE"
  shows "produce_ev (upload_ev rid) (d, s, out) =
    ((dev_ff (EndUpload rid 0) (dev_ff (BeginUpload rid) d),
      s\<lparr>rumble := Some \<lparr>r_type = ''rumble'', r_code = ''main'',
          weak_magnitude = of_int (ff_weak_magnitude (begin_upload d rid)) / 65535,
          strong_magnitude = of_int (ff_strong_magnitude (begin_upload d rid)) / 65535\<rparr>\<rparr>, out), None)"
  using assms by (simp add: produce_ev_def upload_ev_def ecodes Let_def)

lemma produce_ev_play:
  assumes "rumble s = Some r" "v \<noteq> 0"
  shows "produce_ev (play_ev eid v) (d, s, out) = ((d, s, out @ [r]), None)"
  using assms by (simp add: produce_ev_def play_ev_def ecodes)

text \<open>
  Claim C5. On an open device whose descriptor is ready, when the kernel delivers the
  upload request of a rumble effect with raw magnitudes \<open>weak\<close> and \<open>strong\<close> and then a
  play event (nonzero value), in one \<open>produce\<close> call (however the two events are split
  into reads) or in two successive calls, \<open>produce\<close> emits exactly one rumble event with
  code \<open>main\<close>, weak magnitude \<open>weak / 65535\<close> and strong magnitude \<open>strong / 65535\<close>.
\<close>

theorem rumble_upload_play_roundtrip:
  assumes "fd s = Val n" and "n \<noteq> 0" and "n \<in> set fds" and "dev s = Some d"
    and "ff_type (begin_upload d rid) = FF_RUMBLE"
    and "ff_weak_magnitude (begin_upload d rid) = weak"
    and "ff_strong_magnitude (begin_upload d rid) = strong"
    and "v \<noteq> 0"
    and "concat inbound = [upload_ev rid, play_ev eid v]"
  shows "snd (produce fds inbound s) =
      Inr [\<lparr>r_type = ''rumble'', r_code = ''main'',
            weak_magnitude = of_int weak / 65535, strong_magnitude = of_int strong / 65535\<rparr>]
    \<and> snd (produce fds [[play_ev eid v]] (fst (produce fds [[upload_ev rid]] s))) =
      Inr [\<lparr>r_type = ''rumble'', r_code = ''main'',
            weak_magnitude = of_int weak / 65535, strong_magnitude = of_int strong / 65535\<rparr>]"
proof
  show "snd (produce fds inbound s) =
      Inr [\<lparr>r_type = ''rumble'', r_code = ''main'',
            weak_magnitude = of_int weak / 65535, strong_magnitude = of_int strong / 65535\<rparr>]"
    using assms(1-4,6-8)
    by (simp add: produce_def drain_concat assms(9) produce_ev_upload [OF assms(5)] produce_ev_play)
next
  have up: "produce fds [[upload_ev rid]] s =
      (s\<lparr>rumble := Some \<lparr>r_type = ''rumble'', r_code = ''main'',
          weak_magnitude = of_int weak / 65535, strong_magnitude = of_int strong / 65535\<rparr>,
         dev := Some (dev_ff (EndUpload rid 0) (dev_ff (BeginUpload rid) d))\<rparr>, Inr [])"
    using assms(1-4,6-8)
    by (simp add: produce_def produce_ev_upload [OF assms(5)])
  show "snd (produce fds [[play_ev eid v]] (fst (produce fds [[upload_ev rid]] s))) =
      Inr [\<lparr>r_type = ''rumble'', r_code = ''main'',
            weak_magnitude = of_int weak / 65535, strong_magnitude = of_int strong / 65535\<rparr>]"
    unfolding up using assms(1-4,8)
    by (simp add: produce_def produce_ev_play)
qed

text \<open>
  The instance of the specification: magnitudes 32768 and 65535 give a weak magnitude
  within \<open>10^-5\<close> of 0.5 and a strong magnitude of 1.
\<close>

theorem rumble_upload_play_roundtrip_witness:
  "snd (produce [3] [[upload_ev 0, play_ev 0 1]] rumble_device) =
      Inr [\<lparr>r_type = ''rumble'', r_code = ''main'',
            weak_magnitude = 32768 / 65535, strong_magnitude = 1\<rparr>]
   \<and> snd (produce [3] [[play_ev 0 1]] (fst (produce [3] [[upload_ev 0]] rumble_device))) =
      Inr [\<lparr>r_type = ''rumble'', r_code = ''main'',
            weak_magnitude = 32768 / 65535, strong_magnitude = 1\<rparr>]
   \<and> \<bar>32768 / 65535 - 1 / 2\<bar> < (1 / 100000 :: real)"
  using rumble_upload_play_roundtrip [of rumble_device 3 "[3]" rumble_handle
      0 32768 65535 1 "[[upload_ev 0, play_ev 0 1]]" 0]
  by (simp add: rumble_device_def rumble_handle_def open_uinput_def init_def half_full_upload_def)

text \<open>
  Claim C6 fails on the code. An erase request makes \<open>produce\<close> raise: line 124 calls
  \<open>end_erase\<close> on the event, which has no such method, where the upload branch calls
  \<open>end_upload\<close> on the handle. The erase transaction is begun and never completed, and
  \<open>produce\<close> does not return its list.
\<close>

theorem erase_request_raises:
  "snd (produce [3] [[erase_ev 7]] (fst (open_uinput 3 uploads (init bm am ots)))) = Inl AttributeError
   \<and> map_option ff_calls (dev (fst (produce [3] [[erase_ev 7]] (fst (open_uinput 3 uploads (init bm am ots))))))
       = Some [BeginErase 7]"
  by (simp add: produce_def produce_ev_def erase_ev_def open_uinput_def init_def ecodes dev_ff_def)

subsection \<open>Closing\<close>

text \<open>
  Claim C8 fails on the code. \<open>close\<close> clears \<open>self.input\<close> and \<open>self.fd\<close> but leaves
  \<open>self.dev\<close> set, so a second \<open>close\<close> calls \<open>close()\<close> on the handle again: after
  \<open>open\<close> and two calls of \<open>close\<close> the handle has been closed twice.
\<close>

theorem close_twice_closes_handle_twice:
  "map_option close_calls
     (dev (fst (close e2 (fst (close e1 (fst (open_uinput n uploads (init bm am ots)))))))) = Some 2"
  by (simp add: close_def open_uinput_def init_def dev_close_def)

lemma close_never_opened:
  "close e (init bm am ots) = ((init bm am ots)\<lparr>input := PyNone, fd := PyNone\<rparr>, True)"
  by (simp add: close_def init_def)

lemma close_returns_True: "snd (close e s) = True"
  by (simp add: close_def Let_def)

section \<open>Properties of the power-button watchdog\<close>

subsection \<open>The timer variant\<close>

text \<open>
  Claim C2 fails on the code. When \<open>select\<close> times out while a press is pending, the long
  press is run, but lines 246 to 249 leave \<open>pressed_time\<close> set (the release branch clears
  it on line 241). A press at time 10 followed by two timeouts runs the long press twice
  and the press is still recorded; a press, a timeout and then the release run it twice
  as well.
\<close>

theorem timeout_long_press_repeats:
  "power_button_timer [power_key_obs 1 10 True, timeout_obs True, timeout_obs True] timer_init =
     (AtLoopHead, \<lparr>t_dev = True, pressed_time = Some 10, t_actions = [SteamLongPress, SteamLongPress]\<rparr>)
   \<and> power_button_timer [power_key_obs 1 10 True, timeout_obs True, power_key_obs 0 13 True] timer_init =
     (AtLoopHead, \<lparr>t_dev = True, pressed_time = None, t_actions = [SteamLongPress, SteamLongPress]\<rparr>)"
  by (simp add: power_key_obs_def timeout_obs_def timer_init_def timer_press_def truthy_def
      dispatch_def EV_KEY_def KEY_POWER_def LONG_PRESS_DELAY_def)

text \<open>
  Claim C3, as amended. In an iteration of the timer loop that reaches \<open>select\<close> (no
  cancellation, the gate holds, the device is held) with a press recorded at a nonzero
  time \<open>t0\<close>, a release of the power key (value 0) read at time \<open>t\<close> clears the recorded
  press and runs the long-press action when \<open>t - t0\<close> is greater than the threshold and
  the short-press action otherwise, so an elapsed time equal to the threshold is a short
  press; the fallback suspend follows when the action fails. The loop goes on from there.
\<close>

theorem timer_release_classifies:
  assumes "\<not> t_exit_set ob" and "t_steam_running ob" and "t_dev s"
    and "pressed_time s = Some t0" and "t0 \<noteq> 0"
    and "t_sel ob = Ready ev" and "ie_type ev = EV_KEY" and "ie_code ev = KEY_POWER"
    and "ie_value ev = 0"
  shows "power_button_timer (ob # obs) s =
    power_button_timer obs
      (s\<lparr>pressed_time := None,
         t_actions := t_actions s
           @ [if t_curr_time ob - t0 > LONG_PRESS_DELAY then SteamLongPress else SteamShortPress]
           @ (if t_action_ok ob then [] else [SystemctlSuspend])\<rparr>)"
  using assms by (simp add: timer_press_def dispatch_def)

theorem timer_release_classifies_witness:
  "power_button_timer [power_key_obs 0 4 True] (held_at 1) =
     (AtLoopHead, \<lparr>t_dev = True, pressed_time = None, t_actions = [SteamLongPress]\<rparr>)
   \<and> power_button_timer [power_key_obs 0 3 False] (held_at 1) =
     (AtLoopHead, \<lparr>t_dev = True, pressed_time = None, t_actions = [SteamShortPress, SystemctlSuspend]\<rparr>)"
  using timer_release_classifies [of "power_key_obs 0 4 True" "held_at 1" 1
      "\<lparr>ie_type = EV_KEY, ie_code = KEY_POWER, ie_value = 0\<rparr>" "[]"]
    timer_release_classifies [of "power_key_obs 0 3 False" "held_at 1" 1
      "\<lparr>ie_type = EV_KEY, ie_code = KEY_POWER, ie_value = 0\<rparr>" "[]"]
  by (simp add: power_key_obs_def held_at_def LONG_PRESS_DELAY_def)

text \<open>
  The claim as stated fails: a press recorded at time 1 and released at time 3.5, an
  elapsed time of exactly the threshold, runs the short-press action.
\<close>

theorem release_at_threshold_counterexample:
  "power_button_timer [power_key_obs 0 (7 / 2) True] (held_at 1) =
     (AtLoopHead, \<lparr>t_dev = True, pressed_time = None, t_actions = [SteamShortPress]\<rparr>)
   \<and> 7 / 2 - 1 = LONG_PRESS_DELAY"
  by (simp add: power_key_obs_def held_at_def timer_press_def truthy_def
      dispatch_def EV_KEY_def KEY_POWER_def LONG_PRESS_DELAY_def)

subsection \<open>Cancellation during the gating wait\<close>

lemma gate_wait_timer_never_up: "\<forall>p\<in>set ps. \<not> fst p \<Longrightarrow> gate_wait_timer ps = None"
  by (induction ps) auto

lemma gate_wait_isa_observes_flag:
  "k < length ps \<Longrightarrow> snd (ps ! k) \<Longrightarrow> gate_wait_isa ps \<noteq> None"
proof (induction ps arbitrary: k)
  case Nil
  then show ?case by simp
next
  case (Cons p ps)
  show ?case
  proof (cases k)
    case 0
    with Cons.prems show ?thesis by (cases p) auto
  next
    case (Suc j)
    with Cons.prems have "gate_wait_isa ps \<noteq> None"
      by (intro Cons.IH [of j]) auto
    then show ?thesis by (cases p) auto
  qed
qed

text \<open>
  Claim C9 fails on the code. Both loops read the cancellation flag at the head of the
  loop, but the gating wait of the timer variant (lines 213 and 214) does not read it:
  while the gate stays down, the timer loop is still in the gating wait after any number
  \<open>n\<close> of rounds in which the flag is set, where the two-device loop (lines 146 to 149)
  returns in the first such round.
\<close>

theorem timer_gating_wait_ignores_cancellation:
  "fst (power_button_timer (cancelled_wait_obs n # obs) s) = InGatingWait
   \<and> fst (isa_loop hold_events (cancelled_wait_isa_obs (Suc n) # iobs) is) = Returned"
  by (simp add: cancelled_wait_obs_def cancelled_wait_isa_obs_def gate_wait_timer_never_up)

subsection \<open>The hold-sequence matcher\<close>

lemma hold_match_in_range:
  assumes "k < length hold_events"
  shows "hold_match hold_events k chk =
    Inr (if chk = hold_events ! k
         then (if Suc k = length hold_events then (0, True) else (Suc k, False))
         else (0, False))"
  using assms by (auto simp: hold_match_def Let_def)

lemma isa_loop_hold_step:
  assumes "press_dev s" "hold_dev s" "hold_match hes (hold_state s) chk = Inr (hs, trig)"
  shows "isa_loop hes (hold_obs ok chk # obs) s =
    isa_loop hes obs
      (s\<lparr>hold_state := hs,
         i_actions := i_actions s @ (if trig then dispatch long_press ok else [])\<rparr>)"
  using assms by (simp add: hold_obs_def isa_handle_def)

text \<open>Feeding the rest of the sequence from the cursor \<open>k\<close> runs the long press once.\<close>

lemma isa_loop_feed:
  assumes "press_dev s" "hold_dev s" "hold_state s = k" "k < length hes"
  shows "isa_loop hes (map (hold_obs ok) (drop k hes)) s =
    (AtLoopHead, s\<lparr>hold_state := 0, i_actions := i_actions s @ dispatch long_press ok\<rparr>)"
  using assms
proof (induction "length hes - k" arbitrary: k s)
  case 0
  then show ?case by simp
next
  case (Suc n)
  have dr: "drop k hes = hes ! k # drop (Suc k) hes"
    using Suc.prems(4) by (simp add: Cons_nth_drop_Suc)
  show ?case
  proof (cases "Suc k = length hes")
    case True
    have m: "hold_match hes (hold_state s) (hes ! k) = Inr (0, True)"
      using True Suc.prems by (simp add: hold_match_in_range)
    show ?thesis
      unfolding dr list.map isa_loop_hold_step [OF Suc.prems(1,2) m] using True
      by simp
  next
    case False
    have m: "hold_match hes (hold_state s) (hes ! k) = Inr (Suc k, False)"
      using False Suc.prems by (simp add: hold_match_in_range)
    let ?s' = "s\<lparr>hold_state := Suc k, i_actions := i_actions s @ []\<rparr>"
    have "isa_loop hes (map (hold_obs ok) (drop (Suc k) hes)) ?s' =
        (AtLoopHead, ?s'\<lparr>hold_state := 0, i_actions := i_actions ?s' @ dispatch long_press ok\<rparr>)"
      using Suc.hyps(2) Suc.prems False by (intro Suc.hyps(1)) auto
    then show ?thesis
      unfolding dr list.map isa_loop_hold_step [OF Suc.prems(1,2) m]
      by simp
  qed
qed

lemma count_dispatch_long: "count_list (dispatch long_press ok) SteamLongPress = 1"
  by (simp add: dispatch_def)

text \<open>
  Claim C7. For every non-empty hold-event sequence and every cursor \<open>k\<close> inside it, an
  event equal to the expected triple advances the cursor, or, at the end of the
  sequence, runs the long press (once) and resets the cursor to 0; any other event
  resets the cursor to 0 and runs nothing. Fed to the two-device loop from its start,
  the sequence itself runs the long press exactly once and leaves the cursor at 0; for
  the sequence \<open>[(KEY, a, 1), (KEY, b, 1)]\<close>, the events \<open>a, b\<close> run it exactly once,
  and so do the events \<open>a, c, a, b\<close> (for a key \<open>c\<close> other than \<open>b\<close>).
\<close>

theorem hold_sequence_matcher:
  assumes "hold_events \<noteq> []" and "k < length hold_events" and "c \<noteq> b"
  shows "hold_match hold_events k chk =
      Inr (if chk = hold_events ! k
           then (if Suc k = length hold_events then (0, True) else (Suc k, False))
           else (0, False))
    \<and> power_button_isa hold_events (map (hold_obs ok) hold_events) =
        (AtLoopHead, \<lparr>press_dev = True, hold_dev = True, hold_state = 0,
                      i_actions = dispatch long_press ok\<rparr>)
    \<and> long_presses (power_button_isa hold_events (map (hold_obs ok) hold_events)) = 1
    \<and> long_presses (power_button_isa [(EV_KEY, a, 1), (EV_KEY, b, 1)]
          (map (hold_obs ok) [(EV_KEY, a, 1), (EV_KEY, b, 1)])) = 1
    \<and> long_presses (power_button_isa [(EV_KEY, a, 1), (EV_KEY, b, 1)]
          (map (hold_obs ok) [(EV_KEY, a, 1), (EV_KEY, c, 1), (EV_KEY, a, 1), (EV_KEY, b, 1)])) = 1"
proof (intro conjI)
  show "hold_match hold_events k chk =
      Inr (if chk = hold_events ! k
           then (if Suc k = length hold_events then (0, True) else (Suc k, False))
           else (0, False))"
    by (rule hold_match_in_range [OF assms(2)])
next
  obtain h hs where hes: "hold_events = h # hs"
    using assms(1) by (cases hold_events) auto
  let ?ob = "hold_obs ok h"
  let ?s0 = "\<lparr>press_dev = False, hold_dev = False, hold_state = 0, i_actions = []\<rparr>"
  let ?s1 = "\<lparr>press_dev = True, hold_dev = True, hold_state = 0, i_actions = []\<rparr>"
  have first: "isa_loop hold_events (?ob # obs) ?s0 = isa_loop hold_events (?ob # obs) ?s1" for obs
    by (simp add: hold_obs_def)
  have "isa_loop hold_events (map (hold_obs ok) (drop 0 hold_events)) ?s1 =
      (AtLoopHead, ?s1\<lparr>hold_state := 0, i_actions := i_actions ?s1 @ dispatch long_press ok\<rparr>)"
    by (rule isa_loop_feed) (use assms(1) in auto)
  then show whole: "power_button_isa hold_events (map (hold_obs ok) hold_events) =
        (AtLoopHead, \<lparr>press_dev = True, hold_dev = True, hold_state = 0,
                      i_actions = dispatch long_press ok\<rparr>)"
    using first by (simp add: power_button_isa_def hes)
  show "long_presses (power_button_isa hold_events (map (hold_obs ok) hold_events)) = 1"
    by (simp add: whole long_presses_def count_dispatch_long)
next
  show "long_presses (power_button_isa [(EV_KEY, a, 1), (EV_KEY, b, 1)]
          (map (hold_obs ok) [(EV_KEY, a, 1), (EV_KEY, b, 1)])) = 1"
    by (simp add: long_presses_def power_button_isa_def hold_obs_def isa_handle_def
        hold_match_def count_dispatch_long)
next
  show "long_presses (power_button_isa [(EV_KEY, a, 1), (EV_KEY, b, 1)]
          (map (hold_obs ok) [(EV_KEY, a, 1), (EV_KEY, c, 1), (EV_KEY, a, 1), (EV_KEY, b, 1)])) = 1"
    using assms(3)
    by (simp add: long_presses_def power_button_isa_def hold_obs_def isa_handle_def
        hold_match_def count_dispatch_long)
qed

theorem hold_sequence_matcher_witness:
  "hold_match [(EV_KEY, 30, 1), (EV_KEY, 48, 1)] 1 (EV_KEY, 48, 1) = Inr (0, True)
   \<and> hold_match [(EV_KEY, 30, 1), (EV_KEY, 48, 1)] 1 (EV_KEY, 46, 1) = Inr (0, False)
   \<and> long_presses (power_button_isa [(EV_KEY, 30, 1), (EV_KEY, 48, 1)]
        (map (hold_obs True) [(EV_KEY, 30, 1), (EV_KEY, 48, 1)])) = 1
   \<and> long_presses (power_button_isa [(EV_KEY, 30, 1), (EV_KEY, 48, 1)]
        (map (hold_obs True) [(EV_KEY, 30, 1), (EV_KEY, 46, 1), (EV_KEY, 30, 1), (EV_KEY, 48, 1)])) = 1"
  using hold_sequence_matcher [of "[(EV_KEY, 30, 1), (EV_KEY, 48, 1)]" 1 46 48 "(EV_KEY, 48, 1)" True 30]
    hold_sequence_matcher [of "[(EV_KEY, 30, 1), (EV_KEY, 48, 1)]" 1 46 48 "(EV_KEY, 46, 1)" True 30]
  by simp

end
